theory Spec2Isabelle
  imports Main "HOL-Library.Sublist"
begin

section \<open>Strings and the Python string methods the program calls\<close>

text \<open>
  A Python \<open>str\<close> is modelled as a \<open>string\<close>, a list of 8-bit characters read as the
  code points below 256. On that range the library functions below behave as CPython's
  do: the only decimal digits are \<open>0\<close> to \<open>9\<close>, and the only characters that match an
  ASCII letter of a pattern under \<open>re.IGNORECASE\<close> are its two ASCII cases.
\<close>

definition LF :: char where
  "LF = CHR 0x0A"

definition CR :: char where
  "CR = CHR 0x0D"

definition backslash :: char where
  "backslash = CHR 0x5C"

text \<open>The line boundaries of \<open>str.splitlines\<close> below code point 256.\<close>

definition is_linebreak :: "char \<Rightarrow> bool" where
  "is_linebreak c = (c \<in> set [CHR 0x0A, CHR 0x0D, CHR 0x0B, CHR 0x0C, CHR 0x1C, CHR 0x1D, CHR 0x1E, CHR 0x85])"

text \<open>The characters \<open>str.strip()\<close> removes (those with \<open>isspace()\<close>) below code point 256.\<close>

definition is_space :: "char \<Rightarrow> bool" where
  "is_space c = (c \<in> set [CHR 0x09, CHR 0x0A, CHR 0x0B, CHR 0x0C, CHR 0x0D, CHR 0x1C, CHR 0x1D,
     CHR 0x1E, CHR 0x1F, CHR 0x20, CHR 0x85, CHR 0xA0])"

definition is_digit :: "char \<Rightarrow> bool" where
  "is_digit c = (c \<in> set ''0123456789'')"

definition lower_char :: "char \<Rightarrow> char" where
  "lower_char c =
     (case map_of (zip ''ABCDEFGHIJKLMNOPQRSTUVWXYZ'' ''abcdefghijklmnopqrstuvwxyz'') c of
        None \<Rightarrow> c
      | Some l \<Rightarrow> l)"

text \<open>\<open>s.strip()\<close>\<close>

definition str_strip :: "string \<Rightarrow> string" where
  "str_strip s = rev (dropWhile is_space (rev (dropWhile is_space s)))"

text \<open>
  \<open>s.splitlines()\<close>: the scan of CPython, with the line read so far as an accumulator.
  \<open>\r\n\<close> is one boundary; a boundary at the very end opens no further line.
\<close>

fun splitlines_from :: "string \<Rightarrow> string \<Rightarrow> string list" where
  "splitlines_from cur [] = (if cur = [] then [] else [cur])"
| "splitlines_from cur [c] = (if is_linebreak c then [cur] else [cur @ [c]])"
| "splitlines_from cur (c # d # cs) =
     (if c = CR \<and> d = LF then cur # splitlines_from [] cs
      else if is_linebreak c then cur # splitlines_from [] (d # cs)
      else splitlines_from (cur @ [c]) (d # cs))"

definition str_splitlines :: "string \<Rightarrow> string list" where
  "str_splitlines s = splitlines_from [] s"

text \<open>\<open>sep.join(xs)\<close>\<close>

fun str_join :: "string \<Rightarrow> string list \<Rightarrow> string" where
  "str_join sep [] = []"
| "str_join sep [x] = x"
| "str_join sep (x # y # ys) = x @ sep @ str_join sep (y # ys)"

text \<open>\<open>s.split(sep)\<close> for a separator of one character.\<close>

fun str_split :: "char \<Rightarrow> string \<Rightarrow> string list" where
  "str_split sep [] = [[]]"
| "str_split sep (c # cs) =
     (if c = sep then [] # str_split sep cs
      else (case str_split sep cs of
              [] \<Rightarrow> [[c]]
            | h # t \<Rightarrow> (c # h) # t))"

text \<open>
  \<open>s.replace(old, new)\<close>: every non-overlapping occurrence of \<open>old\<close>, from the left. For an
  empty \<open>old\<close> Python inserts \<open>new\<close> before every character and at the end.
\<close>

fun replace_from :: "string \<Rightarrow> string \<Rightarrow> string \<Rightarrow> string" where
  "replace_from [] old new = []"
| "replace_from (c # cs) old new =
     (if prefix old (c # cs) then new @ replace_from (drop (length old - 1) cs) old new
      else c # replace_from cs old new)"

definition str_replace :: "string \<Rightarrow> string \<Rightarrow> string \<Rightarrow> string" where
  "str_replace s old new =
     (if old = [] then new @ concat (map (\<lambda>c. c # new) s) else replace_from s old new)"

text \<open>\<open>sub in s\<close>\<close>

fun str_contains :: "string \<Rightarrow> string \<Rightarrow> bool" where
  "str_contains sub [] = (sub = [])"
| "str_contains sub (c # cs) = (prefix sub (c # cs) \<or> str_contains sub cs)"

section \<open>Regular expressions: the part of \<open>re\<close> the pattern table uses\<close>

text \<open>
  The patterns of the table are made of ordinary characters and of the group \<open>(\d+)\<close>.
  A compiled pattern is a list of such items. A match is the list of the texts its
  groups captured, group 1 first.
\<close>

datatype re_item = Literal char | Digits_group

definition digits_group_src :: string where
  "digits_group_src = CHR ''('' # backslash # ''d+)''"

fun re_compile :: "string \<Rightarrow> re_item list" where
  "re_compile (c1 # c2 # c3 # c4 # c5 # cs) =
     (if [c1, c2, c3, c4, c5] = digits_group_src then Digits_group # re_compile cs
      else Literal c1 # re_compile (c2 # c3 # c4 # c5 # cs))"
| "re_compile (c # cs) = Literal c # re_compile cs"
| "re_compile [] = []"

definition char_match :: "bool \<Rightarrow> char \<Rightarrow> char \<Rightarrow> bool" where
  "char_match ignorecase c x = (if ignorecase then lower_char x = lower_char c else x = c)"

fun first_some :: "'a option list \<Rightarrow> 'a option" where
  "first_some [] = None"
| "first_some (None # xs) = first_some xs"
| "first_some (Some x # xs) = Some x"

text \<open>
  Matching at the start of the text. The group \<open>(\d+)\<close> is greedy: it takes the longest
  run of digits with which the rest of the pattern still matches, and at least one.
\<close>

fun match_here :: "bool \<Rightarrow> re_item list \<Rightarrow> string \<Rightarrow> string list option" where
  "match_here ignorecase [] s = Some []"
| "match_here ignorecase (Literal c # r) [] = None"
| "match_here ignorecase (Literal c # r) (x # xs) =
     (if char_match ignorecase c x then match_here ignorecase r xs else None)"
| "match_here ignorecase (Digits_group # r) s =
     first_some (map (\<lambda>n. map_option (\<lambda>gs. take n s # gs) (match_here ignorecase r (drop n s)))
       (rev [1..<Suc (length (takeWhile is_digit s))]))"

text \<open>The leftmost position at which the pattern matches.\<close>

fun search_from :: "bool \<Rightarrow> re_item list \<Rightarrow> string \<Rightarrow> string list option" where
  "search_from ignorecase items [] = match_here ignorecase items []"
| "search_from ignorecase items (x # xs) =
     (case match_here ignorecase items (x # xs) of
        Some gs \<Rightarrow> Some gs
      | None \<Rightarrow> search_from ignorecase items xs)"

text \<open>\<open>re.search(pattern, s, re.IGNORECASE)\<close> and \<open>re.search(pattern, s)\<close>\<close>

definition re_search :: "string \<Rightarrow> string \<Rightarrow> bool \<Rightarrow> string list option" where
  "re_search pattern s ignorecase = search_from ignorecase (re_compile pattern) s"

datatype py_error = KeyError | IndexError | TypeError | AttributeError

text \<open>\<open>match.group(n)\<close> for \<open>n \<ge> 1\<close>: a group the pattern does not have raises.\<close>

definition group :: "string list \<Rightarrow> nat \<Rightarrow> py_error + string" where
  "group m n = (if 1 \<le> n \<and> n \<le> length m then Inr (m ! (n - 1)) else Inl IndexError)"

section \<open>Values of the service's response\<close>

text \<open>
  The response of the completion service is a JSON-like Python value. Subscripting and
  the method call on it raise as Python does when the value has another shape.
\<close>

datatype py_value =
    PyNone
  | PyStr string
  | PyList "py_value list"
  | PyDict "(string \<times> py_value) list"

text \<open>\<open>v[key]\<close> for a string key.\<close>

fun getitem_key :: "py_value \<Rightarrow> string \<Rightarrow> py_error + py_value" where
  "getitem_key (PyDict d) k = (case map_of d k of None \<Rightarrow> Inl KeyError | Some v \<Rightarrow> Inr v)"
| "getitem_key (PyList xs) k = Inl TypeError"
| "getitem_key (PyStr s) k = Inl TypeError"
| "getitem_key PyNone k = Inl TypeError"

text \<open>\<open>v[0]\<close>\<close>

fun getitem_first :: "py_value \<Rightarrow> py_error + py_value" where
  "getitem_first (PyList []) = Inl IndexError"
| "getitem_first (PyList (x # xs)) = Inr x"
| "getitem_first (PyStr []) = Inl IndexError"
| "getitem_first (PyStr (c # cs)) = Inr (PyStr [c])"
| "getitem_first (PyDict d) = Inl KeyError"
| "getitem_first PyNone = Inl TypeError"

text \<open>\<open>v.strip()\<close>\<close>

fun strip_method :: "py_value \<Rightarrow> py_error + string" where
  "strip_method (PyStr s) = Inr (str_strip s)"
| "strip_method (PyList xs) = Inl AttributeError"
| "strip_method (PyDict d) = Inl AttributeError"
| "strip_method PyNone = Inl AttributeError"

section \<open>The environment: the credential and the completion service\<close>

text \<open>
  What one call sends: the key set as \<open>openai.api_key\<close>, the model, the messages as
  pairs of role and content, and the temperature, a float constant kept as its literal.
\<close>

record request =
  req_api_key :: string
  req_model :: string
  req_messages :: "(string \<times> string) list"
  req_temperature :: string

text \<open>
  The call \<open>openai.ChatCompletion.create\<close> either raises an exception, given by its text
  \<open>str(exc)\<close>, or returns a response.
\<close>

datatype call_outcome = Raised string | Returned py_value

record env =
  getenv_OPENAI_API_KEY :: "string option"
  ChatCompletion_create :: "request \<Rightarrow> call_outcome"

section \<open>The log utility\<close>

definition exit_status_pattern :: string where
  "exit_status_pattern = ''Task failed with exit status '' @ digits_group_src"

definition exit_status_msg :: string where
  "exit_status_msg = ''A Spark task failed. Review the executor logs for stack traces and memory errors.''"

definition out_of_memory_msg :: string where
  "out_of_memory_msg = ''The Spark job ran out of memory. Increase executor memory or reduce data size.''"

definition no_space_msg :: string where
  "no_space_msg = ''The cluster does not have enough disk space. Free up space or use a larger instance.''"

definition permission_msg :: string where
  "permission_msg = ''A file or directory could not be accessed due to permission issues. Check IAM roles and file permissions.''"

definition connection_msg :: string where
  "connection_msg = ''Spark could not connect to a required service. Verify network settings and service endpoints.''"

definition spark_exception_msg :: string where
  "spark_exception_msg = ''Spark reported a generic error. Inspect earlier log entries for a more specific cause.''"

text \<open>The dictionary \<open>PATTERNS\<close>, in its insertion order, which is the order of iteration.\<close>

definition PATTERNS :: "(string \<times> string) list" where
  "PATTERNS =
     [(''OutOfMemoryError'', out_of_memory_msg),
      (''No space left on device'', no_space_msg),
      (''Permission denied'', permission_msg),
      (''Connection refused'', connection_msg),
      (''SparkException'', spark_exception_msg),
      (exit_status_pattern, exit_status_msg)]"

text \<open>
  The functions \<open>_match_patterns\<close> and \<open>_chatgpt_analysis\<close> of the source are
  \<open>match_patterns\<close> and \<open>chatgpt_analysis\<close> here. A result is \<open>Inr\<close> of the value
  returned or \<open>Inl\<close> of the error raised.

  The loop of \<open>_match_patterns\<close> over the items of the table, \<open>messages\<close> being the list
  built so far. \<open>match.group(1)\<close> is the one call of the body that can raise.
\<close>

fun match_loop :: "(string \<times> string) list \<Rightarrow> string \<Rightarrow> string list \<Rightarrow> py_error + string list" where
  "match_loop [] log messages = Inr messages"
| "match_loop ((pattern, msg) # rest) log messages =
     (if re_search pattern log True \<noteq> None then
        (if pattern = exit_status_pattern then
           (case re_search pattern log False of
              Some m \<Rightarrow>
                (case group m 1 of
                   Inl e \<Rightarrow> Inl e
                 | Inr g \<Rightarrow> match_loop rest log (messages @ [str_replace msg digits_group_src g]))
            | None \<Rightarrow> match_loop rest log messages)
         else match_loop rest log (messages @ [msg]))
      else match_loop rest log messages)"

definition match_patterns :: "string \<Rightarrow> py_error + string list" where
  "match_patterns log = match_loop PATTERNS log []"

definition skipped_msg :: string where
  "skipped_msg = ''OpenAI API key not configured; skipping ChatGPT analysis.''"

definition system_prompt :: string where
  "system_prompt =
     ''You are an expert at analysing Apache Airflow and Spark logs. '' @
     ''Summarise why the job failed, provide root cause analysis, and '' @
     ''suggest code changes to resolve it in no more than 50 lines.''"

definition user_prompt :: "string \<Rightarrow> string" where
  "user_prompt log = ''Log excerpt:'' @ [LF] @ log"

definition chat_request :: "string \<Rightarrow> string \<Rightarrow> request" where
  "chat_request api_key log =
     \<lparr>req_api_key = api_key,
      req_model = ''gpt-3.5-turbo'',
      req_messages = [(''system'', system_prompt), (''user'', user_prompt log)],
      req_temperature = ''0.2''\<rparr>"

text \<open>
  \<open>response["choices"][0]["message"]["content"].strip()\<close> and the first 50 lines of it.
  This part of \<open>_chatgpt_analysis\<close> stands after the \<open>try\<close> block, so what it raises
  reaches the caller.
\<close>

definition response_content :: "py_value \<Rightarrow> py_error + string" where
  "response_content response =
     (case getitem_key response ''choices'' of
        Inl e \<Rightarrow> Inl e
      | Inr choices \<Rightarrow>
          (case getitem_first choices of
             Inl e \<Rightarrow> Inl e
           | Inr choice \<Rightarrow>
               (case getitem_key choice ''message'' of
                  Inl e \<Rightarrow> Inl e
                | Inr message \<Rightarrow>
                    (case getitem_key message ''content'' of
                       Inl e \<Rightarrow> Inl e
                     | Inr c \<Rightarrow> strip_method c))))"

definition chatgpt_analysis :: "env \<Rightarrow> string \<Rightarrow> py_error + string" where
  "chatgpt_analysis e log =
     (case getenv_OPENAI_API_KEY e of
        None \<Rightarrow> Inr skipped_msg
      | Some api_key \<Rightarrow>
          if api_key = [] then Inr skipped_msg
          else
            (case ChatCompletion_create e (chat_request api_key log) of
               Raised exc \<Rightarrow> Inr (''ChatGPT request failed: '' @ exc)
             | Returned response \<Rightarrow>
                 (case response_content response of
                    Inl err \<Rightarrow> Inl err
                  | Inr content \<Rightarrow> Inr (str_join [LF] (take 50 (str_splitlines content))))))"

definition no_log_msg :: string where
  "no_log_msg = ''No log information provided.''"

definition fallback_msg :: string where
  "fallback_msg =
     ''Could not determine a specific cause. Check the stack trace and '' @
     ''verify Spark configuration, resource allocation, and input data.''"

definition closing_msg :: string where
  "closing_msg =
     ''For more detailed analysis, review the full executor logs and Airflow '' @
     ''task output around the failure time.''"

text \<open>
  The list \<open>instructions\<close> after the fallback and the closing line were appended and the
  list was cut to 50 entries.
\<close>

definition finalize :: "string list \<Rightarrow> string list" where
  "finalize instructions =
     take 50 ((if instructions = [] then instructions @ [fallback_msg] else instructions) @ [closing_msg])"

text \<open>
  \<open>generate_failure_report\<close>. The argument is \<open>None\<close> for Python's \<open>None\<close>, which
  \<open>not log\<close> treats as the empty string.
\<close>

definition generate_failure_report :: "env \<Rightarrow> string option \<Rightarrow> py_error + string" where
  "generate_failure_report e log =
     (case log of
        None \<Rightarrow> Inr no_log_msg
      | Some l \<Rightarrow>
          if l = [] then Inr no_log_msg
          else
            (case match_patterns l of
               Inl err \<Rightarrow> Inl err
             | Inr matched \<Rightarrow>
                 (case chatgpt_analysis e l of
                    Inl err \<Rightarrow> Inl err
                  | Inr analysis \<Rightarrow>
                      Inr (str_join [LF] (finalize ([] @ matched @ str_splitlines analysis))))))"

text \<open>Whether \<open>os.getenv("OPENAI_API_KEY")\<close> gives a non-empty string.\<close>

definition credential_configured :: "env \<Rightarrow> bool" where
  "credential_configured e =
     (case getenv_OPENAI_API_KEY e of None \<Rightarrow> False | Some k \<Rightarrow> k \<noteq> [])"

text \<open>
  The outcome of the call of the service in one invocation on a log, \<open>None\<close> when the
  service is not called.
\<close>

definition external_outcome :: "env \<Rightarrow> string \<Rightarrow> call_outcome option" where
  "external_outcome e log =
     (case getenv_OPENAI_API_KEY e of
        None \<Rightarrow> None
      | Some api_key \<Rightarrow>
          if api_key = [] then None else Some (ChatCompletion_create e (chat_request api_key log)))"



section \<open>Environments and logs used as examples\<close>

definition env_no_key :: env where
  "env_no_key =
     \<lparr>getenv_OPENAI_API_KEY = None, ChatCompletion_create = (\<lambda>r. Raised ''unreachable'')\<rparr>"

definition env_answer :: "call_outcome \<Rightarrow> env" where
  "env_answer outcome =
     \<lparr>getenv_OPENAI_API_KEY = Some ''sk-test'', ChatCompletion_create = (\<lambda>r. outcome)\<rparr>"

definition chat_response :: "string \<Rightarrow> py_value" where
  "chat_response content =
     PyDict [(''choices'', PyList [PyDict [(''message'', PyDict [(''content'', PyStr content)])]])]"


definition log_all_patterns :: string where
  "log_all_patterns =
     ''OutOfMemoryError; No space left on device; Permission denied; Connection refused; '' @
     ''SparkException; Task failed with exit status 137''"

definition long_answer :: string where
  "long_answer = concat (replicate 60 (''line'' @ [LF]))"

section \<open>The pattern matcher\<close>

subsection \<open>Groups of a match\<close>

lemma first_some_SomeD:
  "first_some xs = Some y \<Longrightarrow> Some y \<in> set xs"
  by (induction xs rule: first_some.induct) auto

lemma match_here_groups:
  "match_here ic items s = Some gs \<Longrightarrow> length gs = length (filter (\<lambda>i. i = Digits_group) items)"
proof (induction ic items s arbitrary: gs rule: match_here.induct)
  case (1 ic s)
  then show ?case by simp
next
  case (2 ic c r)
  then show ?case by simp
next
  case (3 ic c r x xs)
  then show ?case by (simp split: if_splits)
next
  case (4 ic r s)
  let ?f = "\<lambda>n. map_option (\<lambda>gs. take n s # gs) (match_here ic r (drop n s))"
  let ?ns = "rev [1..<Suc (length (takeWhile is_digit s))]"
  from "4.prems" have "first_some (map ?f ?ns) = Some gs"
    by (simp only: match_here.simps)
  then have "Some gs \<in> ?f ` set ?ns"
    by (simp only: set_map [symmetric] first_some_SomeD)
  then obtain n where n: "n \<in> set ?ns" and m: "?f n = Some gs"
    by (metis (no_types, lifting) imageE)
  from m obtain gs' where gs': "match_here ic r (drop n s) = Some gs'" "gs = take n s # gs'"
    by auto
  from "4.IH"[OF n gs'(1)] gs'(2) show ?case by simp
qed

lemma search_from_groups:
  "search_from ic items s = Some gs \<Longrightarrow> length gs = length (filter (\<lambda>i. i = Digits_group) items)"
  by (induction s) (auto split: option.splits dest: match_here_groups)

lemma re_compile_exit_status:
  "re_compile exit_status_pattern = map Literal ''Task failed with exit status '' @ [Digits_group]"
  by (simp add: exit_status_pattern_def digits_group_src_def backslash_def)

lemma exit_status_search_groups:
  "re_search exit_status_pattern log ic = Some m \<Longrightarrow> \<exists>g. m = [g]"
  by (auto simp: re_search_def re_compile_exit_status length_Suc_conv dest!: search_from_groups)

lemma exit_status_msg_replace:
  "str_replace exit_status_msg digits_group_src g = exit_status_msg"
  by (simp add: str_replace_def exit_status_msg_def digits_group_src_def backslash_def)

lemma match_patterns_eq:
  "match_patterns log = Inr
     ((if re_search ''OutOfMemoryError'' log True \<noteq> None then [out_of_memory_msg] else []) @
      (if re_search ''No space left on device'' log True \<noteq> None then [no_space_msg] else []) @
      (if re_search ''Permission denied'' log True \<noteq> None then [permission_msg] else []) @
      (if re_search ''Connection refused'' log True \<noteq> None then [connection_msg] else []) @
      (if re_search ''SparkException'' log True \<noteq> None then [spark_exception_msg] else []) @
      (if re_search exit_status_pattern log True \<noteq> None \<and> re_search exit_status_pattern log False \<noteq> None
       then [exit_status_msg] else []))"
proof -
  have ne: "''OutOfMemoryError'' \<noteq> exit_status_pattern" "''No space left on device'' \<noteq> exit_status_pattern"
    "''Permission denied'' \<noteq> exit_status_pattern" "''Connection refused'' \<noteq> exit_status_pattern"
    "''SparkException'' \<noteq> exit_status_pattern"
    by (simp_all add: exit_status_pattern_def)
  have last: "match_loop [(exit_status_pattern, exit_status_msg)] log acc =
      Inr (acc @ (if re_search exit_status_pattern log True \<noteq> None \<and> re_search exit_status_pattern log False \<noteq> None
       then [exit_status_msg] else []))" for acc
    by (auto simp: group_def exit_status_msg_replace dest!: exit_status_search_groups split: option.splits)
  have step: "match_loop ((pattern, msg) # rest) log acc =
      match_loop rest log (acc @ (if re_search pattern log True \<noteq> None then [msg] else []))"
    if "pattern \<noteq> exit_status_pattern" for pattern msg rest acc
    using that by simp
  show ?thesis
    unfolding match_patterns_def PATTERNS_def
    by (simp only: step [OF ne(1)] step [OF ne(2)] step [OF ne(3)] step [OF ne(4)] step [OF ne(5)]
        last append_Nil append_assoc)
qed

subsection \<open>What a search finds\<close>

text \<open>
  A search succeeds exactly when the text has a part that the pattern matches: for a
  pattern of ordinary characters, a part equal to it (up to the case of ASCII letters
  under \<open>re.IGNORECASE\<close>); for such a pattern followed by \<open>(\d+)\<close>, that part followed by
  a digit.
\<close>

lemma match_here_literals:
  "match_here ic (map Literal p @ r) s =
     (if length p \<le> length s \<and> list_all2 (char_match ic) p (take (length p) s)
      then match_here ic r (drop (length p) s) else None)"
proof (induction p arbitrary: s)
  case Nil
  then show ?case by simp
next
  case (Cons c p)
  show ?case
  proof (cases s)
    case Nil
    then show ?thesis by simp
  next
    case (Cons x xs)
    then show ?thesis using Cons.IH [of xs] by simp
  qed
qed

lemma char_match_ignorecase:
  "list_all2 (char_match True) p v \<longleftrightarrow> map lower_char v = map lower_char p"
  by (induction p arbitrary: v) (auto simp: list_all2_Cons1 char_match_def)

lemma char_match_exact:
  "list_all2 (char_match False) p v \<longleftrightarrow> v = p"
  by (induction p arbitrary: v) (auto simp: list_all2_Cons1 char_match_def)

lemma match_here_digits:
  "match_here ic [Digits_group] s =
     (if takeWhile is_digit s = [] then None else Some [takeWhile is_digit s])"
proof (cases "length (takeWhile is_digit s)")
  case 0
  then show ?thesis by simp
next
  case (Suc n)
  then have "takeWhile is_digit s \<noteq> []" by auto
  moreover have "take (Suc n) s = takeWhile is_digit s"
    using Suc takeWhile_eq_take [of is_digit s] by simp
  ultimately show ?thesis using Suc by simp
qed

lemma search_from_iff:
  "search_from ic items s \<noteq> None \<longleftrightarrow> (\<exists>pre t. s = pre @ t \<and> match_here ic items t \<noteq> None)"
proof (induction s)
  case Nil
  then show ?case by simp
next
  case (Cons x xs)
  show ?case
  proof (cases "match_here ic items (x # xs)")
    case (Some gs)
    then have "x # xs = [] @ (x # xs) \<and> match_here ic items (x # xs) \<noteq> None" by simp
    then have "\<exists>pre t. x # xs = pre @ t \<and> match_here ic items t \<noteq> None" by blast
    with Some show ?thesis by simp
  next
    case None
    have "(\<exists>pre t. x # xs = pre @ t \<and> match_here ic items t \<noteq> None) \<longleftrightarrow>
          (\<exists>pre t. xs = pre @ t \<and> match_here ic items t \<noteq> None)" (is "?L \<longleftrightarrow> ?R")
    proof
      assume ?L
      then obtain pre t where pt: "x # xs = pre @ t" "match_here ic items t \<noteq> None" by blast
      show ?R
      proof (cases pre)
        case Nil
        with pt None show ?thesis by simp
      next
        case (Cons y ys)
        with pt have "xs = ys @ t" by simp
        with pt(2) show ?thesis by blast
      qed
    next
      assume ?R
      then obtain pre t where "xs = pre @ t" "match_here ic items t \<noteq> None" by blast
      then have "x # xs = (x # pre) @ t \<and> match_here ic items t \<noteq> None" by simp
      then show ?L by blast
    qed
    with None Cons.IH show ?thesis by simp
  qed
qed

lemma literal_search_iff:
  assumes "re_compile p = map Literal p"
  shows "re_search p log ic \<noteq> None \<longleftrightarrow>
    (\<exists>pre v post. log = pre @ v @ post \<and> list_all2 (char_match ic) p v)"
proof -
  have lit: "match_here ic (map Literal p) t \<noteq> None \<longleftrightarrow>
      length p \<le> length t \<and> list_all2 (char_match ic) p (take (length p) t)" for t
    using match_here_literals [of ic p "[]" t] by simp
  have "re_search p log ic \<noteq> None \<longleftrightarrow>
      (\<exists>pre t. log = pre @ t \<and> length p \<le> length t \<and> list_all2 (char_match ic) p (take (length p) t))"
    unfolding re_search_def assms search_from_iff lit ..
  also have "\<dots> \<longleftrightarrow> (\<exists>pre v post. log = pre @ v @ post \<and> list_all2 (char_match ic) p v)"
  proof
    assume "\<exists>pre t. log = pre @ t \<and> length p \<le> length t \<and> list_all2 (char_match ic) p (take (length p) t)"
    then obtain pre t where "log = pre @ t" "list_all2 (char_match ic) p (take (length p) t)" by blast
    then have "log = pre @ take (length p) t @ drop (length p) t \<and> list_all2 (char_match ic) p (take (length p) t)"
      by simp
    then show "\<exists>pre v post. log = pre @ v @ post \<and> list_all2 (char_match ic) p v" by blast
  next
    assume "\<exists>pre v post. log = pre @ v @ post \<and> list_all2 (char_match ic) p v"
    then obtain pre v post where l: "log = pre @ v @ post" and m: "list_all2 (char_match ic) p v" by blast
    from m have "length v = length p" by (simp add: list_all2_lengthD)
    with l m have "log = pre @ (v @ post) \<and> length p \<le> length (v @ post) \<and>
        list_all2 (char_match ic) p (take (length p) (v @ post))" by simp
    then show "\<exists>pre t. log = pre @ t \<and> length p \<le> length t \<and> list_all2 (char_match ic) p (take (length p) t)"
      by blast
  qed
  finally show ?thesis .
qed

lemma literal_digits_search_iff:
  assumes "re_compile pat = map Literal p @ [Digits_group]"
  shows "re_search pat log ic \<noteq> None \<longleftrightarrow>
    (\<exists>pre v d post. log = pre @ v @ d # post \<and> list_all2 (char_match ic) p v \<and> is_digit d)"
  (is "?S \<longleftrightarrow> ?R")
proof -
  have dig: "takeWhile is_digit u \<noteq> [] \<longleftrightarrow> (\<exists>d post. u = d # post \<and> is_digit d)" for u
    by (cases u) auto
  have lit: "match_here ic (map Literal p @ [Digits_group]) t \<noteq> None \<longleftrightarrow>
      length p \<le> length t \<and> list_all2 (char_match ic) p (take (length p) t) \<and>
      takeWhile is_digit (drop (length p) t) \<noteq> []" for t
    by (auto simp: match_here_literals match_here_digits simp del: match_here.simps(4))
  have "?S \<longleftrightarrow> (\<exists>pre t. log = pre @ t \<and> length p \<le> length t \<and>
       list_all2 (char_match ic) p (take (length p) t) \<and> takeWhile is_digit (drop (length p) t) \<noteq> [])"
    unfolding re_search_def assms search_from_iff lit ..
  also have "\<dots> \<longleftrightarrow> ?R"
  proof
    assume "\<exists>pre t. log = pre @ t \<and> length p \<le> length t \<and>
       list_all2 (char_match ic) p (take (length p) t) \<and> takeWhile is_digit (drop (length p) t) \<noteq> []"
    then obtain pre t where l: "log = pre @ t" and m: "list_all2 (char_match ic) p (take (length p) t)"
      and d: "takeWhile is_digit (drop (length p) t) \<noteq> []" by blast
    from d obtain c post where c: "drop (length p) t = c # post" "is_digit c" using dig by blast
    have "t = take (length p) t @ drop (length p) t" by simp
    with c(1) have "t = take (length p) t @ c # post" by metis
    with l m c(2) have "log = pre @ take (length p) t @ c # post \<and>
       list_all2 (char_match ic) p (take (length p) t) \<and> is_digit c" by simp
    then show ?R by blast
  next
    assume ?R
    then obtain pre v d post where l: "log = pre @ v @ d # post"
      and m: "list_all2 (char_match ic) p v" and d: "is_digit d" by blast
    from m have len: "length v = length p" by (simp add: list_all2_lengthD)
    have "log = pre @ (v @ d # post) \<and> length p \<le> length (v @ d # post) \<and>
       list_all2 (char_match ic) p (take (length p) (v @ d # post)) \<and>
       takeWhile is_digit (drop (length p) (v @ d # post)) \<noteq> []"
      using l m d len by simp
    then show "\<exists>pre t. log = pre @ t \<and> length p \<le> length t \<and>
       list_all2 (char_match ic) p (take (length p) t) \<and> takeWhile is_digit (drop (length p) t) \<noteq> []"
      by blast
  qed
  finally show ?thesis .
qed

lemma exit_status_search_iff:
  "re_search exit_status_pattern log ic \<noteq> None \<longleftrightarrow>
    (\<exists>pre v d post. log = pre @ v @ d # post \<and>
       list_all2 (char_match ic) ''Task failed with exit status '' v \<and> is_digit d)"
  by (rule literal_digits_search_iff [OF re_compile_exit_status])

lemma out_of_memory_search_iff:
  "re_search ''OutOfMemoryError'' log True \<noteq> None \<longleftrightarrow>
    (\<exists>pre v post. log = pre @ v @ post \<and> map lower_char v = map lower_char ''OutOfMemoryError'')"
proof -
  have "re_compile ''OutOfMemoryError'' = map Literal ''OutOfMemoryError''"
    by (simp add: digits_group_src_def)
  from literal_search_iff [OF this] show ?thesis
    by (simp only: char_match_ignorecase)
qed

subsection \<open>The messages of a log\<close>

lemma table_messages_distinct:
  "distinct [out_of_memory_msg, no_space_msg, permission_msg, connection_msg,
     spark_exception_msg, exit_status_msg, skipped_msg, fallback_msg, closing_msg]"
  by (simp add: out_of_memory_msg_def no_space_msg_def permission_msg_def connection_msg_def
      spark_exception_msg_def exit_status_msg_def skipped_msg_def fallback_msg_def closing_msg_def)

lemma exit_status_ignorecase_only_example:
  "re_search exit_status_pattern ''task failed with exit status 1'' True \<noteq> None"
  "re_search exit_status_pattern ''task failed with exit status 1'' False = None"
  by (simp_all add: re_search_def re_compile_exit_status char_match_def lower_char_def is_digit_def)

text \<open>
  Claim C7. Whenever the search of the exit-status pattern with \<open>re.IGNORECASE\<close> matches
  and the second search, without the flag, does not, \<open>_match_patterns\<close> returns a list (it
  does not raise) and the message of that rule is not in it, whatever text would have been
  substituted.
\<close>

theorem match_patterns_skips_failed_capture:
  assumes "re_search exit_status_pattern log True \<noteq> None"
    and "re_search exit_status_pattern log False = None"
  shows "\<exists>messages. match_patterns log = Inr messages \<and> exit_status_msg \<notin> set messages \<and>
    (\<forall>g. str_replace exit_status_msg digits_group_src g \<notin> set messages)"
  using assms table_messages_distinct
  by (auto simp: match_patterns_eq exit_status_msg_replace)

theorem match_patterns_skips_failed_capture_witness:
  "re_search exit_status_pattern ''task failed with exit status 1'' True \<noteq> None \<and>
   re_search exit_status_pattern ''task failed with exit status 1'' False = None \<and>
   (\<exists>messages. match_patterns ''task failed with exit status 1'' = Inr messages \<and>
      exit_status_msg \<notin> set messages \<and>
      (\<forall>g. str_replace exit_status_msg digits_group_src g \<notin> set messages))"
  using match_patterns_skips_failed_capture [OF exit_status_ignorecase_only_example]
    exit_status_ignorecase_only_example
  by blast

section \<open>The report\<close>

subsection \<open>Lines of a joined text\<close>

lemma splitlines_from_no_LF:
  "LF \<notin> set cur \<Longrightarrow> line \<in> set (splitlines_from cur s) \<Longrightarrow> LF \<notin> set line"
proof (induction cur s rule: splitlines_from.induct)
  case (1 cur)
  then show ?case by (auto split: if_splits)
next
  case (2 cur c)
  then show ?case by (auto simp: is_linebreak_def LF_def split: if_splits)
next
  case (3 cur c d cs)
  then show ?case by (auto simp: is_linebreak_def LF_def split: if_splits)
qed

lemma str_splitlines_no_LF:
  "line \<in> set (str_splitlines s) \<Longrightarrow> LF \<notin> set line"
  unfolding str_splitlines_def by (rule splitlines_from_no_LF [of "[]"]) simp_all

lemma str_split_single:
  "sep \<notin> set x \<Longrightarrow> str_split sep x = [x]"
  by (induction x) auto

lemma str_split_append:
  "sep \<notin> set x \<Longrightarrow> str_split sep (x @ sep # rest) = x # str_split sep rest"
  by (induction x) auto

lemma str_split_join:
  "xs \<noteq> [] \<Longrightarrow> (\<And>x. x \<in> set xs \<Longrightarrow> sep \<notin> set x) \<Longrightarrow> str_split sep (str_join [sep] xs) = xs"
proof (induction "[sep]" xs rule: str_join.induct)
  case 1
  then show ?case by simp
next
  case (2 x)
  then show ?case by (simp add: str_split_single)
next
  case (3 x y ys)
  then show ?case by (simp add: str_split_append)
qed

lemma finalize_nonempty: "finalize xs \<noteq> []"
  by (cases xs) (simp_all add: finalize_def)

lemma finalize_length: "length (finalize xs) \<le> 50"
  by (simp add: finalize_def)

lemma finalize_set: "set (finalize xs) \<subseteq> set xs \<union> {fallback_msg, closing_msg}"
  unfolding finalize_def using set_take_subset [of 50] by (fastforce split: if_splits)

lemma match_patterns_subset:
  "match_patterns log = Inr ms \<Longrightarrow>
   set ms \<subseteq> {out_of_memory_msg, no_space_msg, permission_msg, connection_msg, spark_exception_msg, exit_status_msg}"
  by (auto simp: match_patterns_eq split: if_splits)

lemma messages_no_LF:
  "LF \<notin> set out_of_memory_msg" "LF \<notin> set no_space_msg" "LF \<notin> set permission_msg"
  "LF \<notin> set connection_msg" "LF \<notin> set spark_exception_msg" "LF \<notin> set exit_status_msg"
  "LF \<notin> set skipped_msg" "LF \<notin> set fallback_msg" "LF \<notin> set closing_msg" "LF \<notin> set no_log_msg"
  by (simp_all add: LF_def out_of_memory_msg_def no_space_msg_def permission_msg_def connection_msg_def
      spark_exception_msg_def exit_status_msg_def skipped_msg_def fallback_msg_def closing_msg_def no_log_msg_def)

lemma report_cases:
  assumes "generate_failure_report e log = Inr report"
  obtains "report = no_log_msg" "log = None \<or> log = Some []"
  | l ms a where "log = Some l" "l \<noteq> []" "match_patterns l = Inr ms" "chatgpt_analysis e l = Inr a"
      "report = str_join [LF] (finalize (ms @ str_splitlines a))"
  using assms
  by (auto simp: generate_failure_report_def split: option.splits if_splits sum.splits)

lemma report_lines:
  assumes "match_patterns l = Inr ms"
  shows "str_split LF (str_join [LF] (finalize (ms @ str_splitlines a))) = finalize (ms @ str_splitlines a)"
proof (rule str_split_join [OF finalize_nonempty])
  fix x assume "x \<in> set (finalize (ms @ str_splitlines a))"
  then have "x \<in> set ms \<or> x \<in> set (str_splitlines a) \<or> x = fallback_msg \<or> x = closing_msg"
    using finalize_set by fastforce
  then show "LF \<notin> set x"
    using match_patterns_subset [OF assms] messages_no_LF str_splitlines_no_LF by blast
qed


subsection \<open>The external analysis and the report without a credential\<close>

lemma chatgpt_analysis_no_credential:
  "\<not> credential_configured e \<Longrightarrow> chatgpt_analysis e log = Inr skipped_msg"
  by (auto simp: credential_configured_def chatgpt_analysis_def split: option.splits)

lemma chatgpt_analysis_answer:
  "chatgpt_analysis (env_answer (Returned (chat_response c))) log =
     Inr (str_join [LF] (take 50 (str_splitlines (str_strip c))))"
  by (simp add: chatgpt_analysis_def env_answer_def chat_response_def response_content_def)

lemma chatgpt_analysis_raised:
  "credential_configured e \<Longrightarrow> external_outcome e log = Some (Raised exc) \<Longrightarrow>
   chatgpt_analysis e log = Inr (''ChatGPT request failed: '' @ exc)"
  by (auto simp: credential_configured_def chatgpt_analysis_def external_outcome_def split: option.splits)

lemma splitlines_skipped_msg: "str_splitlines skipped_msg = [skipped_msg]"
  by (simp add: str_splitlines_def skipped_msg_def is_linebreak_def CR_def)

lemma match_patterns_length:
  "match_patterns log = Inr ms \<Longrightarrow> length ms \<le> 6"
  by (auto simp: match_patterns_eq)

lemma report_no_credential:
  assumes "\<not> credential_configured e" "l \<noteq> []" "match_patterns l = Inr ms"
  shows "generate_failure_report e (Some l) = Inr (str_join [LF] (ms @ [skipped_msg, closing_msg]))"
proof -
  have "take 50 (ms @ [skipped_msg, closing_msg]) = ms @ [skipped_msg, closing_msg]"
    using match_patterns_length [OF assms(3)] by simp
  then have "finalize (ms @ [skipped_msg]) = ms @ [skipped_msg, closing_msg]"
    by (simp add: finalize_def)
  with assms show ?thesis
    by (simp add: generate_failure_report_def chatgpt_analysis_no_credential splitlines_skipped_msg)
qed

lemma no_credential_env_no_key: "\<not> credential_configured env_no_key"
  by (simp add: credential_configured_def env_no_key_def)

subsection \<open>Empty input\<close>

text \<open>
  Claim C8. For the empty log text and for an absent one, \<open>generate_failure_report\<close>
  returns the one line \<open>No log information provided.\<close> and nothing else, in every
  environment: neither the matcher, the external analysis, the fallback nor the closing
  line contributes.
\<close>

theorem empty_log_report:
  "generate_failure_report e None = Inr ''No log information provided.'' \<and>
   generate_failure_report e (Some []) = Inr ''No log information provided.''"
  by (simp add: generate_failure_report_def no_log_msg_def)

subsection \<open>The bound on the lines\<close>

lemma report_answer:
  assumes "l \<noteq> []"
  shows "\<exists>report. generate_failure_report (env_answer (Returned (chat_response c))) (Some l) = Inr report"
  by (simp add: generate_failure_report_def match_patterns_eq chatgpt_analysis_answer assms)

text \<open>
  Claim C4. Whatever the log, the credential and the outcome of the external call: when
  \<open>generate_failure_report\<close> returns a report, that report, split at the newline
  characters, has at most 50 lines.
\<close>

theorem report_at_most_50_lines:
  assumes "generate_failure_report e log = Inr report"
  shows "length (str_split LF report) \<le> 50"
  using assms
proof (cases rule: report_cases)
  case 1
  then show ?thesis by (simp add: str_split_single messages_no_LF)
next
  case (2 l ms a)
  then show ?thesis by (simp add: report_lines finalize_length)
qed

theorem report_at_most_50_lines_witness:
  "\<exists>report. generate_failure_report (env_answer (Returned (chat_response long_answer))) (Some log_all_patterns) = Inr report
     \<and> length (str_split LF report) \<le> 50"
proof -
  have "log_all_patterns \<noteq> []" by (simp add: log_all_patterns_def)
  from report_answer [OF this] obtain report where
    r: "generate_failure_report (env_answer (Returned (chat_response long_answer))) (Some log_all_patterns) = Inr report"
    by blast
  from report_at_most_50_lines [OF r] r show ?thesis by blast
qed

subsection \<open>The scenario of the HDFS log\<close>

lemma match_patterns_hdfs:
  "match_patterns ''SparkException: Connection refused while accessing HDFS'' =
     Inr [connection_msg, spark_exception_msg]"
  by (simp add: match_patterns_eq re_search_def re_compile_exit_status digits_group_src_def
      char_match_def lower_char_def is_digit_def)

text \<open>
  Claim C1, as amended. For the log \<open>SparkException: Connection refused while accessing HDFS\<close>
  and no credential, the report is four lines: the Connection-refused message, then the
  SparkException message (the order of the pattern table), then the line saying the
  analysis was skipped, then the closing guidance line; the generic fallback is not in it.
\<close>

theorem hdfs_scenario_report:
  assumes "\<not> credential_configured e"
  shows "generate_failure_report e (Some ''SparkException: Connection refused while accessing HDFS'') =
     Inr (str_join [LF] [connection_msg, spark_exception_msg, skipped_msg, closing_msg])"
  using report_no_credential [OF assms _ match_patterns_hdfs] by simp

theorem hdfs_scenario_report_witness:
  "\<not> credential_configured env_no_key \<and>
   generate_failure_report env_no_key (Some ''SparkException: Connection refused while accessing HDFS'') =
     Inr (str_join [LF] [connection_msg, spark_exception_msg, skipped_msg, closing_msg])"
  using hdfs_scenario_report [OF no_credential_env_no_key] no_credential_env_no_key by simp

text \<open>
  The claim as written has the SparkException message first; the report is another text.
\<close>

theorem hdfs_scenario_spark_first_counterexample:
  "generate_failure_report env_no_key (Some ''SparkException: Connection refused while accessing HDFS'') \<noteq>
     Inr (str_join [LF] [spark_exception_msg, connection_msg, skipped_msg, closing_msg])"
  using report_no_credential [OF no_credential_env_no_key _ match_patterns_hdfs]
  by (simp add: connection_msg_def spark_exception_msg_def)

subsection \<open>A log that matches no pattern\<close>

lemma match_patterns_hello: "match_patterns ''hello'' = Inr []"
  by (simp add: match_patterns_eq re_search_def re_compile_exit_status digits_group_src_def
      char_match_def lower_char_def is_digit_def)

lemma matches_none_hello:
  "list_all (\<lambda>(pattern, msg). re_search pattern ''hello'' True = None) PATTERNS"
  by (simp add: PATTERNS_def re_search_def re_compile_exit_status digits_group_src_def
      char_match_def lower_char_def is_digit_def)

lemma matches_none_empty:
  "list_all (\<lambda>(pattern, msg). re_search pattern [] True = None) PATTERNS"
  by (simp add: PATTERNS_def re_search_def re_compile_exit_status digits_group_src_def)

lemma match_patterns_none:
  assumes "list_all (\<lambda>(pattern, msg). re_search pattern l True = None) PATTERNS"
  shows "match_patterns l = Inr []"
  using assms by (simp add: match_patterns_eq PATTERNS_def)

text \<open>
  Claim C2, as amended. For a non-empty log that matches no pattern of the table, and no
  credential, the report has the line saying the analysis was skipped and, after it, the
  closing guidance line.
\<close>

theorem no_match_no_credential_report:
  assumes "l \<noteq> []"
    and "list_all (\<lambda>(pattern, msg). re_search pattern l True = None) PATTERNS"
    and "\<not> credential_configured e"
  shows "\<exists>report. generate_failure_report e (Some l) = Inr report \<and>
     subseq [skipped_msg, closing_msg] (str_split LF report)"
proof -
  have "generate_failure_report e (Some l) = Inr (str_join [LF] [skipped_msg, closing_msg])"
    using report_no_credential [OF assms(3,1) match_patterns_none [OF assms(2)]] by simp
  moreover have "str_split LF (str_join [LF] [skipped_msg, closing_msg]) = [skipped_msg, closing_msg]"
    by (rule str_split_join) (auto simp: messages_no_LF)
  ultimately show ?thesis by simp
qed

theorem no_match_no_credential_report_witness:
  "''hello'' \<noteq> [] \<and>
   list_all (\<lambda>(pattern, msg). re_search pattern ''hello'' True = None) PATTERNS \<and>
   \<not> credential_configured env_no_key \<and>
   (\<exists>report. generate_failure_report env_no_key (Some ''hello'') = Inr report \<and>
     subseq [skipped_msg, closing_msg] (str_split LF report))"
  using no_match_no_credential_report [OF _ matches_none_hello no_credential_env_no_key]
    matches_none_hello no_credential_env_no_key
  by simp

text \<open>
  The claim as written asks for the fallback line, then the closing line, then the skipped
  line. For the log \<open>hello\<close> the report is the skipped line and the closing line: the
  fallback line is absent and the closing line comes last. The empty log matches no
  pattern either, and its report is the one line of the early return.
\<close>

theorem no_match_fallback_order_counterexample:
  "(list_all (\<lambda>(pattern, msg). re_search pattern ''hello'' True = None) PATTERNS \<and>
    \<not> credential_configured env_no_key \<and>
    generate_failure_report env_no_key (Some ''hello'') = Inr (str_join [LF] [skipped_msg, closing_msg]) \<and>
    \<not> subseq [fallback_msg, closing_msg, skipped_msg] (str_split LF (str_join [LF] [skipped_msg, closing_msg])) \<and>
    fallback_msg \<notin> set (str_split LF (str_join [LF] [skipped_msg, closing_msg]))) \<and>
   (list_all (\<lambda>(pattern, msg). re_search pattern [] True = None) PATTERNS \<and>
    generate_failure_report env_no_key (Some []) = Inr no_log_msg \<and>
    \<not> subseq [fallback_msg, closing_msg, skipped_msg] (str_split LF no_log_msg))"
proof -
  have "generate_failure_report env_no_key (Some ''hello'') = Inr (str_join [LF] [skipped_msg, closing_msg])"
    using report_no_credential [OF no_credential_env_no_key _ match_patterns_hello] by simp
  moreover have "str_split LF (str_join [LF] [skipped_msg, closing_msg]) = [skipped_msg, closing_msg]"
    by (rule str_split_join) (auto simp: messages_no_LF)
  moreover have "str_split LF no_log_msg = [no_log_msg]"
    by (simp add: str_split_single messages_no_LF)
  moreover have "generate_failure_report env_no_key (Some []) = Inr no_log_msg"
    by (simp add: generate_failure_report_def)
  ultimately show ?thesis
    using matches_none_hello matches_none_empty no_credential_env_no_key table_messages_distinct by auto
qed

subsection \<open>The out-of-memory message\<close>

lemma match_patterns_total: "\<exists>ms. match_patterns log = Inr ms"
  by (simp add: match_patterns_eq)

lemma match_patterns_out_of_memory:
  assumes "re_search ''OutOfMemoryError'' log True \<noteq> None" and "match_patterns log = Inr ms"
  shows "\<exists>rest. ms = out_of_memory_msg # rest \<and> out_of_memory_msg \<notin> set rest"
  using assms table_messages_distinct by (auto simp: match_patterns_eq)

text \<open>
  Claim C6, as amended. For a log that contains \<open>OutOfMemoryError\<close> in any case of its
  letters, however often, a report that \<open>generate_failure_report\<close> returns has the
  out-of-memory message as exactly one of its lines, provided no line of the external
  analysis is that message (as when no credential is configured).
\<close>

theorem out_of_memory_message_once:
  assumes "log = pre @ v @ post"
    and "map lower_char v = map lower_char ''OutOfMemoryError''"
    and "generate_failure_report e (Some log) = Inr report"
    and "chatgpt_analysis e log = Inr analysis"
    and "out_of_memory_msg \<notin> set (str_splitlines analysis)"
  shows "count_list (str_split LF report) out_of_memory_msg = 1"
proof -
  from assms(1,2) have found: "re_search ''OutOfMemoryError'' log True \<noteq> None"
    unfolding out_of_memory_search_iff by blast
  from assms(2) have "length v = length ''OutOfMemoryError''"
    by (rule map_eq_imp_length_eq)
  with assms(1) have ne: "log \<noteq> []" by auto
  from assms(3) ne obtain ms a where ms: "match_patterns log = Inr ms"
    and a: "chatgpt_analysis e log = Inr a"
    and r: "report = str_join [LF] (finalize (ms @ str_splitlines a))"
    by (cases rule: report_cases) auto
  from a assms(4) have aa: "a = analysis" by simp
  from match_patterns_out_of_memory [OF found ms] obtain rest
    where rest: "ms = out_of_memory_msg # rest" "out_of_memory_msg \<notin> set rest" by blast
  let ?tail = "rest @ str_splitlines analysis @ [closing_msg]"
  have "out_of_memory_msg \<notin> set ?tail"
    using rest(2) assms(5) table_messages_distinct by auto
  then have "out_of_memory_msg \<notin> set (take 49 ?tail)"
    using set_take_subset [of 49 ?tail] by blast
  then have "count_list (take 49 ?tail) out_of_memory_msg = 0"
    by simp
  moreover have "finalize (ms @ str_splitlines analysis) = out_of_memory_msg # take 49 ?tail"
    by (simp add: finalize_def rest(1))
  moreover have "str_split LF report = finalize (ms @ str_splitlines analysis)"
    unfolding r aa by (rule report_lines [OF ms])
  ultimately show ?thesis by simp
qed

theorem out_of_memory_message_once_witness:
  "''java.lang.OUTOFMEMORYERROR: heap; outofmemoryerror again'' =
      ''java.lang.'' @ ''OUTOFMEMORYERROR'' @ '': heap; outofmemoryerror again'' \<and>
   map lower_char ''OUTOFMEMORYERROR'' = map lower_char ''OutOfMemoryError'' \<and>
   chatgpt_analysis env_no_key ''java.lang.OUTOFMEMORYERROR: heap; outofmemoryerror again'' = Inr skipped_msg \<and>
   out_of_memory_msg \<notin> set (str_splitlines skipped_msg) \<and>
   (\<exists>report. generate_failure_report env_no_key
        (Some ''java.lang.OUTOFMEMORYERROR: heap; outofmemoryerror again'') = Inr report \<and>
      count_list (str_split LF report) out_of_memory_msg = 1)"
proof -
  let ?log = "''java.lang.OUTOFMEMORYERROR: heap; outofmemoryerror again''"
  have d: "?log = ''java.lang.'' @ ''OUTOFMEMORYERROR'' @ '': heap; outofmemoryerror again''" by simp
  have v: "map lower_char ''OUTOFMEMORYERROR'' = map lower_char ''OutOfMemoryError''"
    by (simp add: lower_char_def)
  have a: "chatgpt_analysis env_no_key ?log = Inr skipped_msg"
    by (rule chatgpt_analysis_no_credential [OF no_credential_env_no_key])
  have n: "out_of_memory_msg \<notin> set (str_splitlines skipped_msg)"
    using table_messages_distinct by (simp add: splitlines_skipped_msg)
  obtain ms where "match_patterns ?log = Inr ms" using match_patterns_total by blast
  from report_no_credential [OF no_credential_env_no_key _ this]
  obtain report where r: "generate_failure_report env_no_key (Some ?log) = Inr report" by auto
  from out_of_memory_message_once [OF d v r a n] d v a n r show ?thesis by blast
qed

lemma splitlines_out_of_memory_answer:
  "str_splitlines (str_join [LF] (take 50 (str_splitlines (str_strip out_of_memory_msg)))) = [out_of_memory_msg]"
  by (simp add: str_strip_def str_splitlines_def out_of_memory_msg_def is_space_def is_linebreak_def CR_def)

lemma match_patterns_oom: "match_patterns ''OutOfMemoryError'' = Inr [out_of_memory_msg]"
  by (simp add: match_patterns_eq re_search_def re_compile_exit_status digits_group_src_def
      char_match_def lower_char_def is_digit_def)

text \<open>
  The claim as written does not restrict the external analysis. When the service answers
  with the out-of-memory message itself, the report has that line twice: the lines of the
  analysis are appended as they come.
\<close>

theorem out_of_memory_message_twice_counterexample:
  "generate_failure_report (env_answer (Returned (chat_response out_of_memory_msg))) (Some ''OutOfMemoryError'') =
     Inr (str_join [LF] [out_of_memory_msg, out_of_memory_msg, closing_msg]) \<and>
   count_list (str_split LF (str_join [LF] [out_of_memory_msg, out_of_memory_msg, closing_msg])) out_of_memory_msg = 2"
proof -
  have "generate_failure_report (env_answer (Returned (chat_response out_of_memory_msg))) (Some ''OutOfMemoryError'') =
     Inr (str_join [LF] [out_of_memory_msg, out_of_memory_msg, closing_msg])"
    by (simp add: generate_failure_report_def match_patterns_oom chatgpt_analysis_answer
        splitlines_out_of_memory_answer finalize_def)
  moreover have "str_split LF (str_join [LF] [out_of_memory_msg, out_of_memory_msg, closing_msg]) =
      [out_of_memory_msg, out_of_memory_msg, closing_msg]"
    by (rule str_split_join) (auto simp: messages_no_LF)
  ultimately show ?thesis using table_messages_distinct by auto
qed

subsection \<open>The exit-status rule\<close>

lemma match_patterns_exit_137:
  "match_patterns ''Task failed with exit status 137'' = Inr [exit_status_msg]"
  by (simp add: match_patterns_eq re_search_def re_compile_exit_status digits_group_src_def
      char_match_def lower_char_def is_digit_def)

lemma exit_137_group:
  "re_search exit_status_pattern ''Task failed with exit status 137'' False = Some [''137'']"
  by (simp add: re_search_def re_compile_exit_status char_match_def is_digit_def)

text \<open>
  Claim C5 does not hold of the code. For the log \<open>Task failed with exit status 137\<close>
  the second search captures \<open>137\<close>, but the message of the rule does not contain the
  text \<open>(\d+)\<close> that \<open>replace\<close> looks for, so the message is emitted unchanged: with no
  credential the report is the unchanged message, the skipped line and the closing line,
  and \<open>137\<close> occurs nowhere in it.
\<close>

theorem exit_status_137_not_substituted:
  "re_search exit_status_pattern ''Task failed with exit status 137'' False = Some [''137''] \<and>
   generate_failure_report env_no_key (Some ''Task failed with exit status 137'') =
     Inr (str_join [LF] [exit_status_msg, skipped_msg, closing_msg]) \<and>
   \<not> str_contains ''137'' (str_join [LF] [exit_status_msg, skipped_msg, closing_msg]) \<and>
   \<not> str_contains digits_group_src exit_status_msg"
proof -
  have "generate_failure_report env_no_key (Some ''Task failed with exit status 137'') =
     Inr (str_join [LF] [exit_status_msg, skipped_msg, closing_msg])"
    using report_no_credential [OF no_credential_env_no_key _ match_patterns_exit_137] by simp
  moreover have "\<not> str_contains ''137'' (str_join [LF] [exit_status_msg, skipped_msg, closing_msg])"
    by (simp add: exit_status_msg_def skipped_msg_def closing_msg_def LF_def)
  moreover have "\<not> str_contains digits_group_src exit_status_msg"
    by (simp add: exit_status_msg_def digits_group_src_def backslash_def)
  ultimately show ?thesis using exit_137_group by simp
qed

lemma match_patterns_upper_137:
  "re_search exit_status_pattern ''TASK FAILED WITH EXIT STATUS 137'' True \<noteq> None"
  "re_search exit_status_pattern ''TASK FAILED WITH EXIT STATUS 137'' False = None"
  "match_patterns ''TASK FAILED WITH EXIT STATUS 137'' = Inr []"
  by (simp_all add: match_patterns_eq re_search_def re_compile_exit_status digits_group_src_def
      char_match_def lower_char_def is_digit_def)

text \<open>
  Claim C10. The second search of the exit-status rule is case-sensitive. For the log
  \<open>TASK FAILED WITH EXIT STATUS 137\<close> the search with \<open>re.IGNORECASE\<close> matches, the second
  search does not, and \<open>_match_patterns\<close> returns no message. In general, for every log that
  has the phrase followed by a digit in some casing but nowhere in the casing of the
  pattern, the first search matches, the second does not, and the list that
  \<open>_match_patterns\<close> returns is without the exit-status message.
\<close>

theorem exit_status_reextraction_case_sensitive:
  "(re_search exit_status_pattern ''TASK FAILED WITH EXIT STATUS 137'' True \<noteq> None \<and>
    re_search exit_status_pattern ''TASK FAILED WITH EXIT STATUS 137'' False = None \<and>
    match_patterns ''TASK FAILED WITH EXIT STATUS 137'' = Inr []) \<and>
   (\<forall>log.
      (\<exists>pre v d post. log = pre @ v @ d # post \<and>
         map lower_char v = map lower_char ''Task failed with exit status '' \<and> is_digit d) \<and>
      (\<nexists>pre d post. log = pre @ ''Task failed with exit status '' @ d # post \<and> is_digit d) \<longrightarrow>
      re_search exit_status_pattern log True \<noteq> None \<and>
      re_search exit_status_pattern log False = None \<and>
      (\<exists>messages. match_patterns log = Inr messages \<and> exit_status_msg \<notin> set messages))"
proof (intro conjI allI impI)
  fix log
  assume h: "(\<exists>pre v d post. log = pre @ v @ d # post \<and>
         map lower_char v = map lower_char ''Task failed with exit status '' \<and> is_digit d) \<and>
      (\<nexists>pre d post. log = pre @ ''Task failed with exit status '' @ d # post \<and> is_digit d)"
  from h show ci: "re_search exit_status_pattern log True \<noteq> None"
    unfolding exit_status_search_iff char_match_ignorecase by blast
  from h show cs: "re_search exit_status_pattern log False = None"
    using exit_status_search_iff [of log False] unfolding char_match_exact by blast
  from ci cs table_messages_distinct
  show "\<exists>messages. match_patterns log = Inr messages \<and> exit_status_msg \<notin> set messages"
    by (auto simp: match_patterns_eq)
qed (rule match_patterns_upper_137)+

lemma mixed_case_example:
  "re_search exit_status_pattern ''Task Failed With Exit Status 2'' False = None"
  by (simp add: re_search_def re_compile_exit_status char_match_def is_digit_def)

theorem exit_status_reextraction_case_sensitive_witness:
  "(\<exists>pre v d post. ''Task Failed With Exit Status 2'' = pre @ v @ d # post \<and>
      map lower_char v = map lower_char ''Task failed with exit status '' \<and> is_digit d) \<and>
   (\<nexists>pre d post. ''Task Failed With Exit Status 2'' = pre @ ''Task failed with exit status '' @ d # post \<and> is_digit d) \<and>
   re_search exit_status_pattern ''Task Failed With Exit Status 2'' True \<noteq> None \<and>
   re_search exit_status_pattern ''Task Failed With Exit Status 2'' False = None \<and>
   (\<exists>messages. match_patterns ''Task Failed With Exit Status 2'' = Inr messages \<and> exit_status_msg \<notin> set messages)"
proof -
  let ?log = "''Task Failed With Exit Status 2''"
  have "?log = [] @ ''Task Failed With Exit Status '' @ CHR ''2'' # [] \<and>
      map lower_char ''Task Failed With Exit Status '' = map lower_char ''Task failed with exit status '' \<and>
      is_digit CHR ''2''"
    by (simp add: lower_char_def is_digit_def)
  then have a: "\<exists>pre v d post. ?log = pre @ v @ d # post \<and>
      map lower_char v = map lower_char ''Task failed with exit status '' \<and> is_digit d"
    by blast
  have b: "\<nexists>pre d post. ?log = pre @ ''Task failed with exit status '' @ d # post \<and> is_digit d"
    using mixed_case_example exit_status_search_iff [of ?log False] unfolding char_match_exact by blast
  from exit_status_reextraction_case_sensitive a b show ?thesis by blast
qed

section \<open>The external analysis adapter\<close>

text \<open>
  Claim C3 does not hold of the code. The \<open>try\<close> block of \<open>_chatgpt_analysis\<close> covers the
  call only. A response without \<open>choices\<close>, with an empty list of choices, or with a
  content that is not a string makes the lines after the block raise, and the error reaches
  the caller of \<open>_chatgpt_analysis\<close> and of \<open>generate_failure_report\<close>.
\<close>

theorem malformed_response_raises:
  "chatgpt_analysis (env_answer (Returned (PyDict []))) log = Inl KeyError \<and>
   chatgpt_analysis (env_answer (Returned (PyDict [(''choices'', PyList [])]))) log = Inl IndexError \<and>
   chatgpt_analysis (env_answer (Returned
     (PyDict [(''choices'', PyList [PyDict [(''message'', PyDict [(''content'', PyNone)])]])]))) log =
     Inl AttributeError \<and>
   generate_failure_report (env_answer (Returned (PyDict []))) (Some ''x'') = Inl KeyError"
  by (simp add: chatgpt_analysis_def env_answer_def response_content_def generate_failure_report_def
      match_patterns_eq)

section \<open>Determinism\<close>






end
